theory Spec2Isabelle
  imports Main
begin

section \<open>Dolev-Yao model of the request-response protocol (examples/dolevyao\_rpc.c)\<close>

subsection \<open>Items\<close>

text \<open>
  The inductive datatype \<^verbatim>\<open>item\<close> of the annotations (lines 100-104). The \<^verbatim>\<open>int\<close>
  of a VeriFast inductive is a mathematical integer; the C code compares such values with
  0 and 1 only and never computes with them, so \<^typ>\<open>int\<close> is used throughout.
\<close>

datatype item =
    key_item int int
  | data_item int
  | hmacsha1_item int int item
  | pair_item item item

subsection \<open>Event predicates and environment facts\<close>

text \<open>
  The fixpoints \<^verbatim>\<open>bad\<close>, \<^verbatim>\<open>request\<close>, \<^verbatim>\<open>response\<close> and \<^verbatim>\<open>shared_with\<close>
  (lines 214-218) are declared without a body: they are the same, arbitrary functions in
  every contract. They are gathered in one record that the protocol functions take as a
  parameter.
\<close>

record env =
  bad :: "int \<Rightarrow> bool"
  request :: "int \<Rightarrow> int \<Rightarrow> item \<Rightarrow> bool"
  response :: "int \<Rightarrow> int \<Rightarrow> item \<Rightarrow> item \<Rightarrow> bool"
  shared_with :: "int \<Rightarrow> int \<Rightarrow> int"

text \<open>The fixpoint \<^verbatim>\<open>mypub\<close> (lines 221-248), case by case.\<close>

fun mypub :: "env \<Rightarrow> item \<Rightarrow> bool" where
  "mypub E (key_item o' k) = (bad E o' \<or> bad E (shared_with E o' k))"
| "mypub E (data_item d) = True"
| "mypub E (hmacsha1_item creator id' m) =
     (bad E creator \<or> bad E (shared_with E creator id')
      \<or>
      (case m of
         pair_item f s \<Rightarrow>
           (case f of
              data_item tag \<Rightarrow>
                (if tag = 0 then
                   request E creator (shared_with E creator id') s
                 else if tag = 1 then
                   (case s of
                      pair_item req resp \<Rightarrow>
                        response E creator (shared_with E creator id') req resp
                    | _ \<Rightarrow> False)
                 else False)
            | _ \<Rightarrow> False)
       | _ \<Rightarrow> False))"
| "mypub E (pair_item i1 i2) = (mypub E i1 \<and> mypub E i2)"

subsection \<open>Program state\<close>

text \<open>
  A \<^verbatim>\<open>struct item *\<close> is an address. The heap is a list of cells indexed by address:
  cell \<open>p\<close> holds \<open>Some i\<close> exactly when the chunk \<^verbatim>\<open>item(p, i)\<close> is owned; an allocation
  appends a cell, so the address it returns has never been used; \<^verbatim>\<open>item_free\<close> empties
  the cell.
\<close>

type_synonym ptr = nat

record state =
  heap :: "item option list"
  world :: "item \<Rightarrow> bool"
  wire :: "nat \<Rightarrow> item"
  received :: nat
  sent :: "item list"
  principals :: int
  principal :: "int \<rightharpoonup> int"
  choices :: "nat \<Rightarrow> int"
  chosen :: nat

text \<open>
  \<^item> \<open>world s\<close> is the argument \<^verbatim>\<open>pub\<close> of the chunk \<^verbatim>\<open>world(pub)\<close>;
  \<^item> \<open>wire s n\<close> is the item the network offers to the \<open>n\<close>-th call of
    \<^verbatim>\<open>net_receive\<close> (the attacker controls the network, so this is any sequence),
    \<open>received s\<close> counts the calls made;
  \<^item> \<open>sent s\<close> records, in order, the item values passed to \<^verbatim>\<open>net_send\<close>; it is an
    observation of the run and no operation reads it;
  \<^item> \<open>principals s\<close> is the argument of the chunk \<^verbatim>\<open>principals(count)\<close>;
  \<^item> \<open>principal s p = Some n\<close> stands for the chunk \<^verbatim>\<open>principal(p, n)\<close>;
  \<^item> \<open>choices s n\<close> is the result of the \<open>n\<close>-th call of \<^verbatim>\<open>choose\<close>, \<open>chosen s\<close>
    counts the calls made.
\<close>

definition cell :: "item option list \<Rightarrow> ptr \<Rightarrow> item option" where
  "cell h p = (if p < length h then h ! p else None)"

definition item_at :: "state \<Rightarrow> ptr \<Rightarrow> item option" where
  "item_at s p = cell (heap s) p"

text \<open>The predicates \<^verbatim>\<open>item(item, i)\<close> (line 106) and \<^verbatim>\<open>key(item, creator, id)\<close> (line 108).\<close>

definition item_chunk :: "state \<Rightarrow> ptr \<Rightarrow> item \<Rightarrow> bool" where
  "item_chunk s p i = (item_at s p = Some i)"

definition key_chunk :: "state \<Rightarrow> ptr \<Rightarrow> int \<Rightarrow> int \<Rightarrow> bool" where
  "key_chunk s p creator id' = item_chunk s p (key_item creator id')"

subsection \<open>Outcomes\<close>

text \<open>
  A call either returns a value or stops the calling role; in both cases the state reached
  is kept, so that what was sent before a stop can still be observed.
  \<^item> \<open>TypeMismatch\<close>, \<open>VerifyFailure\<close>, \<open>NotPublic\<close>: the failures of the wrapper
    functions;
  \<^item> \<open>Abort\<close>: a call of \<^verbatim>\<open>abort()\<close> in the protocol code;
  \<^item> \<open>Violated\<close>: a call whose \<^verbatim>\<open>requires\<close> clause does not hold (a chunk that is
    not owned, a pure precondition that is false);
  \<^item> \<open>Infeasible\<close>: the run is excluded by the \<^verbatim>\<open>ensures\<close> clause of a function
    outside the program (the network, the server application).
\<close>

datatype error = TypeMismatch | VerifyFailure | NotPublic | Abort | Violated | Infeasible

type_synonym 'a prog = "state \<Rightarrow> (error + 'a) \<times> state"

definition ret :: "'a \<Rightarrow> 'a prog" where
  "ret a = (\<lambda>s. (Inr a, s))"

definition throw :: "error \<Rightarrow> 'a prog" where
  "throw e = (\<lambda>s. (Inl e, s))"

definition bnd :: "'a prog \<Rightarrow> ('a \<Rightarrow> 'b prog) \<Rightarrow> 'b prog" where
  "bnd m f = (\<lambda>s. case m s of (Inl e, s') \<Rightarrow> (Inl e, s') | (Inr a, s') \<Rightarrow> f a s')"

definition abort :: "'a prog" where
  "abort = throw Abort"

text \<open>
  Reading the value of an owned chunk \<^verbatim>\<open>item(p, ?i)\<close>, and allocating a new item.
  Chunks joined by the separating conjunction \<^verbatim>\<open>&*&\<close> are different objects: a call that
  passes the same item for two of them does not satisfy its \<^verbatim>\<open>requires\<close> clause, which is
  what \<open>separate\<close> checks.
\<close>

definition get_item :: "ptr \<Rightarrow> item prog" where
  "get_item p = (\<lambda>s. case item_at s p of None \<Rightarrow> (Inl Violated, s) | Some i \<Rightarrow> (Inr i, s))"

definition new_item :: "item \<Rightarrow> ptr prog" where
  "new_item i = (\<lambda>s. (Inr (length (heap s)), s\<lparr>heap := heap s @ [Some i]\<rparr>))"

definition separate :: "ptr list \<Rightarrow> unit prog" where
  "separate ps = (if distinct ps then ret () else throw Violated)"

subsection \<open>The wrapper functions\<close>

text \<open>
  The wrapper functions are declared with a contract and no body (the file says "We do
  not provide an implementation of the wrappers here"), and so are \<^verbatim>\<open>choose\<close> and
  \<^verbatim>\<open>compute_response\<close>. Each definition below follows the contract at the declaration:
  the chunks and values of the \<^verbatim>\<open>ensures\<close> clause are produced from those of the
  \<^verbatim>\<open>requires\<close> clause, and a case whose postcondition is \<^verbatim>\<open>false\<close> does not return; the
  failure it stops with is the one the specification names.
\<close>

text \<open>
  Modelled from the spec: the lemma \<^verbatim>\<open>create_principal\<close> has no body. By its contract
  (lines 116-118) it turns \<^verbatim>\<open>principals(count)\<close> into \<^verbatim>\<open>principals(count + 1)\<close> and
  \<^verbatim>\<open>principal(count, 0)\<close>; the new identifier \<open>count\<close> is returned.
\<close>

definition create_principal :: "int prog" where
  "create_principal =
     (\<lambda>s. (Inr (principals s),
           s\<lparr>principals := principals s + 1,
             principal := (principal s)(principals s \<mapsto> 0)\<rparr>))"

text \<open>
  Modelled from the spec: the body of \<^verbatim>\<open>create_key\<close> is missing. By its contract (lines
  122-124) it turns \<^verbatim>\<open>principal(principal, keyCount)\<close> into
  \<^verbatim>\<open>principal(principal, keyCount + 1)\<close> and returns a new item with value
  \<^verbatim>\<open>key_item(principal, keyCount)\<close>. \<^verbatim>\<open>create_key()\<close> has no C parameter: the principal
  is the one of the chunk that the call consumes, here the argument \<open>p\<close>.
\<close>

definition create_key :: "int \<Rightarrow> ptr prog" where
  "create_key p =
     (\<lambda>s. case principal s p of
             None \<Rightarrow> (Inl Violated, s)
           | Some keyCount \<Rightarrow>
               new_item (key_item p keyCount)
                 (s\<lparr>principal := (principal s)(p \<mapsto> keyCount + 1)\<rparr>))"

text \<open>
  Modelled from the spec: the body of \<^verbatim>\<open>check_is_key\<close> is missing. By its contract
  (lines 126-137) it returns on a key only ("aborts if the item is not a key"); the
  specification names the failure TypeMismatch.
\<close>

definition check_is_key :: "ptr \<Rightarrow> unit prog" where
  "check_is_key p =
     bnd (get_item p) (\<lambda>i.
       case i of
         key_item creator id' \<Rightarrow> ret ()
       | data_item d \<Rightarrow> throw TypeMismatch
       | hmacsha1_item c id' pl \<Rightarrow> throw TypeMismatch
       | pair_item f s \<Rightarrow> throw TypeMismatch)"

text \<open>
  Modelled from the spec: the body of \<^verbatim>\<open>create_data_item\<close> is missing. By its contract
  (lines 139-141) it returns a new item with value \<^verbatim>\<open>data_item(data)\<close>.
\<close>

definition create_data_item :: "int \<Rightarrow> ptr prog" where
  "create_data_item d = new_item (data_item d)"

text \<open>
  Modelled from the spec: the body of \<^verbatim>\<open>item_get_data\<close> is missing. By its contract
  (lines 143-154) it returns \<open>d\<close> on \<^verbatim>\<open>data_item(d)\<close>, keeps the item, and does not return
  on another item; the specification names the failure TypeMismatch.
\<close>

definition item_get_data :: "ptr \<Rightarrow> int prog" where
  "item_get_data p =
     bnd (get_item p) (\<lambda>i.
       case i of
         key_item creator id' \<Rightarrow> throw TypeMismatch
       | data_item d \<Rightarrow> ret d
       | hmacsha1_item c id' pl \<Rightarrow> throw TypeMismatch
       | pair_item f s \<Rightarrow> throw TypeMismatch)"

text \<open>
  Modelled from the spec: the body of \<^verbatim>\<open>hmacsha1\<close> is missing. By its contract (lines
  156-158) it returns a new item with value \<^verbatim>\<open>hmacsha1_item(creator, id, p)\<close> for the key
  \<^verbatim>\<open>key_item(creator, id)\<close> and the payload \<open>p\<close>; the specification has it fail with
  TypeMismatch when the key argument is not a key.
\<close>

definition hmacsha1 :: "ptr \<Rightarrow> ptr \<Rightarrow> ptr prog" where
  "hmacsha1 key payload =
     bnd (separate [key, payload]) (\<lambda>_.
     bnd (get_item key) (\<lambda>k.
     bnd (get_item payload) (\<lambda>p.
       case k of
         key_item creator id' \<Rightarrow> new_item (hmacsha1_item creator id' p)
       | _ \<Rightarrow> throw TypeMismatch)))"

text \<open>
  Modelled from the spec: the body of \<^verbatim>\<open>create_pair\<close> is missing. By its contract
  (lines 160-163) it returns a new item with value \<^verbatim>\<open>pair_item(f, s)\<close> and keeps both
  arguments.
\<close>

definition create_pair :: "ptr \<Rightarrow> ptr \<Rightarrow> ptr prog" where
  "create_pair first second =
     bnd (separate [first, second]) (\<lambda>_.
     bnd (get_item first) (\<lambda>f.
     bnd (get_item second) (\<lambda>s.
       new_item (pair_item f s))))"

text \<open>
  Modelled from the spec: the body of \<^verbatim>\<open>net_send\<close> is missing. Its contract (lines
  165-167) requires \<^verbatim>\<open>pub(d) == true\<close> for the value \<open>d\<close> sent and leaves \<^verbatim>\<open>world(pub)\<close>
  and the item as they were; the specification names the refusal of the gate NotPublic.
\<close>

definition net_send :: "ptr \<Rightarrow> unit prog" where
  "net_send datagram =
     bnd (get_item datagram) (\<lambda>d.
       (\<lambda>s. if world s d then (Inr (), s\<lparr>sent := sent s @ [d]\<rparr>)
            else (Inl NotPublic, s)))"

text \<open>
  Modelled from the spec: the body of \<^verbatim>\<open>net_receive\<close> is missing. Its contract (lines
  169-171) ensures a new item whose value \<open>d\<close> satisfies \<^verbatim>\<open>pub(d) == true\<close>: a run in
  which the network offers an item that is not public is excluded.
\<close>

definition net_receive :: "ptr prog" where
  "net_receive =
     (\<lambda>s. let d = wire s (received s) in
          if world s d then new_item d (s\<lparr>received := Suc (received s)\<rparr>)
          else (Inl Infeasible, s))"

text \<open>
  Modelled from the spec: the body of \<^verbatim>\<open>pair_get_first\<close> is missing. By its contract
  (lines 173-184) it keeps the pair and returns a new item with the value of the first
  component, and does not return on an item that is not a pair; the specification names the
  failure TypeMismatch.
\<close>

definition pair_get_first :: "ptr \<Rightarrow> ptr prog" where
  "pair_get_first pair =
     bnd (get_item pair) (\<lambda>p.
       case p of
         key_item o' k \<Rightarrow> throw TypeMismatch
       | data_item d \<Rightarrow> throw TypeMismatch
       | hmacsha1_item creator id' pl \<Rightarrow> throw TypeMismatch
       | pair_item f s \<Rightarrow> new_item f)"

text \<open>
  Modelled from the spec: the body of \<^verbatim>\<open>pair_get_second\<close> is missing. By its contract
  (lines 186-197) it keeps the pair and returns a new item with the value of the second
  component, and does not return on an item that is not a pair; the specification names the
  failure TypeMismatch.
\<close>

definition pair_get_second :: "ptr \<Rightarrow> ptr prog" where
  "pair_get_second pair =
     bnd (get_item pair) (\<lambda>p.
       case p of
         key_item o' k \<Rightarrow> throw TypeMismatch
       | data_item d \<Rightarrow> throw TypeMismatch
       | hmacsha1_item creator id' pl \<Rightarrow> throw TypeMismatch
       | pair_item f s \<Rightarrow> new_item s)"

text \<open>
  Modelled from the spec: the body of \<^verbatim>\<open>hmacsha1_verify\<close> is missing. By its contract
  (lines 199-201) it returns only when \<^verbatim>\<open>h == hmacsha1_item(creator, id, p)\<close>; the
  specification names the failure VerifyFailure (TypeMismatch when the key argument is not
  a key).
\<close>

definition hmacsha1_verify :: "ptr \<Rightarrow> ptr \<Rightarrow> ptr \<Rightarrow> unit prog" where
  "hmacsha1_verify hash key payload =
     bnd (separate [hash, key, payload]) (\<lambda>_.
     bnd (get_item hash) (\<lambda>h.
     bnd (get_item key) (\<lambda>k.
     bnd (get_item payload) (\<lambda>p.
       case k of
         key_item creator id' \<Rightarrow>
           if h = hmacsha1_item creator id' p then ret () else throw VerifyFailure
       | _ \<Rightarrow> throw TypeMismatch))))"

text \<open>
  Modelled from the spec: the body of \<^verbatim>\<open>item_equals\<close> is missing. By its contract
  (lines 203-206) it returns \<^verbatim>\<open>i1 == i2\<close> and keeps both items.
\<close>

definition item_equals :: "ptr \<Rightarrow> ptr \<Rightarrow> bool prog" where
  "item_equals item1 item2 =
     bnd (separate [item1, item2]) (\<lambda>_.
     bnd (get_item item1) (\<lambda>i1.
     bnd (get_item item2) (\<lambda>i2.
       ret (i1 = i2))))"

text \<open>
  Modelled from the spec: the body of \<^verbatim>\<open>item_free\<close> is missing. By its contract
  (lines 208-210) it consumes the chunk \<^verbatim>\<open>item(item, _)\<close>.
\<close>

definition item_free :: "ptr \<Rightarrow> unit prog" where
  "item_free p =
     bnd (get_item p) (\<lambda>_.
       (\<lambda>s. (Inr (), s\<lparr>heap := (heap s)[p := None]\<rparr>)))"

text \<open>
  Modelled from the spec: the body of \<^verbatim>\<open>choose\<close> is missing. Its contract (lines
  351-353) says nothing of the result: it is the next value of the sequence \<open>choices\<close>.
  (The name \<open>choose\<close> is taken by the binomial coefficient.)
\<close>

definition choose' :: "int prog" where
  "choose' = (\<lambda>s. (Inr (choices s (chosen s)), s\<lparr>chosen := Suc (chosen s)\<rparr>))"

text \<open>
  Modelled from the spec: the body of \<^verbatim>\<open>compute_response\<close>, the server application, is
  missing. \<open>app\<close> is the function from the request to the response it computes. Its
  contract (lines 301-307) finds the key through the chunk \<^verbatim>\<open>key(?key, ?creator, ?id)\<close>,
  here the argument \<open>key\<close>; it requires that the creator or its partner is bad or that the
  request event holds, and ensures a new item whose value is public and for which the
  response event holds: a run in which the application answers otherwise is excluded.
\<close>

definition compute_response :: "env \<Rightarrow> (item \<Rightarrow> item) \<Rightarrow> ptr \<Rightarrow> ptr \<Rightarrow> ptr prog" where
  "compute_response E app key requestp =
     bnd (separate [key, requestp]) (\<lambda>_.
     bnd (get_item key) (\<lambda>k.
     bnd (get_item requestp) (\<lambda>req.
       case k of
         key_item creator id' \<Rightarrow>
           if bad E creator \<or> bad E (shared_with E creator id')
              \<or> request E creator (shared_with E creator id') req
           then
             (let resp = app req in
              if mypub E resp \<and> response E creator (shared_with E creator id') req resp
              then new_item resp
              else throw Infeasible)
           else throw Violated
       | _ \<Rightarrow> throw Violated)))"

subsection \<open>The client\<close>

text \<open>
  \<^verbatim>\<open>client\<close> (lines 252-297). Its body is made of two blocks, the one that sends the
  request (lines 264-274) and the one that receives the response (lines 276-296). The
  parameter \<^verbatim>\<open>request\<close> is written \<open>requestp\<close>, since \<open>request\<close> is the event
  predicate.
\<close>

definition client_send :: "ptr \<Rightarrow> ptr \<Rightarrow> unit prog" where
  "client_send key requestp =
     bnd (create_data_item 0) (\<lambda>tag.
     bnd (create_pair tag requestp) (\<lambda>payload.
     bnd (item_free tag) (\<lambda>_.
     bnd (hmacsha1 key payload) (\<lambda>hash.
     bnd (create_pair hash payload) (\<lambda>m.
     bnd (item_free hash) (\<lambda>_.
     bnd (item_free payload) (\<lambda>_.
     bnd (net_send m) (\<lambda>_.
     item_free m))))))))"

definition client_receive :: "ptr \<Rightarrow> ptr \<Rightarrow> ptr prog" where
  "client_receive key requestp =
     bnd net_receive (\<lambda>r.
     bnd (pair_get_first r) (\<lambda>hash.
     bnd (pair_get_second r) (\<lambda>payload.
     bnd (item_free r) (\<lambda>_.
     bnd (hmacsha1_verify hash key payload) (\<lambda>_.
     bnd (item_free hash) (\<lambda>_.
     bnd (pair_get_first payload) (\<lambda>tag.
     bnd (item_get_data tag) (\<lambda>tagValue.
     bnd (if tagValue \<noteq> 1 then abort else ret ()) (\<lambda>_.
     bnd (item_free tag) (\<lambda>_.
     bnd (pair_get_second payload) (\<lambda>reqresp.
     bnd (item_free payload) (\<lambda>_.
     bnd (pair_get_first reqresp) (\<lambda>request1.
     bnd (pair_get_second reqresp) (\<lambda>response.
     bnd (item_free reqresp) (\<lambda>_.
     bnd (item_equals requestp request1) (\<lambda>eq.
     bnd (if \<not> eq then abort else ret ()) (\<lambda>_.
     bnd (item_free request1) (\<lambda>_.
     ret response))))))))))))))))))"

definition client :: "int \<Rightarrow> ptr \<Rightarrow> ptr \<Rightarrow> ptr prog" where
  "client server key requestp =
     bnd (client_send key requestp) (\<lambda>_. client_receive key requestp)"

text \<open>
  The \<^verbatim>\<open>requires\<close> clause of \<^verbatim>\<open>client\<close> (lines 254-256). The chunks are joined by the
  separating conjunction, so the key and the request are two objects.
\<close>

definition client_pre ::
  "env \<Rightarrow> int \<Rightarrow> ptr \<Rightarrow> ptr \<Rightarrow> int \<Rightarrow> int \<Rightarrow> item \<Rightarrow> state \<Rightarrow> bool" where
  "client_pre E server key requestp creator id' req s =
     (world s = mypub E \<and> key_chunk s key creator id' \<and> item_chunk s requestp req
      \<and> key \<noteq> requestp
      \<and> mypub E req \<and> request E creator server req \<and> shared_with E creator id' = server)"

subsection \<open>The server\<close>

text \<open>
  One pass through the body of the loop of \<^verbatim>\<open>server\<close> (lines 316-347). The variable
  \<^verbatim>\<open>request\<close> is set to 0 and then assigned before any use; it is written \<open>requestp\<close>.
\<close>

definition server_body :: "env \<Rightarrow> (item \<Rightarrow> item) \<Rightarrow> ptr \<Rightarrow> unit prog" where
  "server_body E app key =
     bnd net_receive (\<lambda>r.
     bnd (pair_get_first r) (\<lambda>hash.
     bnd (pair_get_second r) (\<lambda>payload.
     bnd (item_free r) (\<lambda>_.
     bnd (hmacsha1_verify hash key payload) (\<lambda>_.
     bnd (item_free hash) (\<lambda>_.
     bnd (pair_get_first payload) (\<lambda>tag.
     bnd (item_get_data tag) (\<lambda>tagValue.
     bnd (if tagValue \<noteq> 0 then abort else ret ()) (\<lambda>_.
     bnd (item_free tag) (\<lambda>_.
     bnd (pair_get_second payload) (\<lambda>requestp.
     bnd (item_free payload) (\<lambda>_.
     bnd (compute_response E app key requestp) (\<lambda>response.
     bnd (create_pair requestp response) (\<lambda>reqresp.
     bnd (item_free response) (\<lambda>_.
     bnd (item_free requestp) (\<lambda>_.
     bnd (create_data_item 1) (\<lambda>tag.
     bnd (create_pair tag reqresp) (\<lambda>payload.
     bnd (item_free tag) (\<lambda>_.
     bnd (item_free reqresp) (\<lambda>_.
     bnd (hmacsha1 key payload) (\<lambda>hash.
     bnd (create_pair hash payload) (\<lambda>m.
     bnd (item_free hash) (\<lambda>_.
     bnd (item_free payload) (\<lambda>_.
     bnd (net_send m) (\<lambda>_.
     item_free m)))))))))))))))))))))))))"

text \<open>
  \<^verbatim>\<open>server\<close> (lines 309-349): the loop \<^verbatim>\<open>for (;;)\<close> has no exit, so the function ends
  only when a pass stops it, and otherwise runs forever (the value \<open>None\<close>).
\<close>

partial_function (option) server ::
  "env \<Rightarrow> (item \<Rightarrow> item) \<Rightarrow> int \<Rightarrow> ptr \<Rightarrow> state \<Rightarrow> (error \<times> state) option" where
  "server E app serverId key s =
     (case server_body E app key s of
        (Inl e, s') \<Rightarrow> Some (e, s')
      | (Inr _, s') \<Rightarrow> server E app serverId key s')"

text \<open>
  The \<^verbatim>\<open>requires\<close> clause of \<^verbatim>\<open>server\<close> (line 310) and the invariant of its loop
  (line 314).
\<close>

definition server_pre :: "env \<Rightarrow> int \<Rightarrow> ptr \<Rightarrow> int \<Rightarrow> int \<Rightarrow> state \<Rightarrow> bool" where
  "server_pre E serverId key creator id' s =
     (world s = mypub E \<and> key_chunk s key creator id' \<and> shared_with E creator id' = serverId)"

definition server_inv :: "env \<Rightarrow> ptr \<Rightarrow> int \<Rightarrow> int \<Rightarrow> state \<Rightarrow> bool" where
  "server_inv E key creator id' s = (world s = mypub E \<and> key_chunk s key creator id')"

subsection \<open>The attacker\<close>

text \<open>
  One pass through the body of the inner loop of \<^verbatim>\<open>attacker\<close> (lines 366-416), for the
  principal \<open>me\<close> of the invariant \<^verbatim>\<open>principal(?me, ?keyCount)\<close>. The \<^verbatim>\<open>switch\<close> has
  no \<^verbatim>\<open>default\<close>: any other value of \<^verbatim>\<open>action\<close> does nothing. In case 0, the lines
  371 and 372 are ghost statements (\<^verbatim>\<open>open\<close>, \<^verbatim>\<open>assume\<close>): they are not part of the
  program that runs, which passes the key it created to \<^verbatim>\<open>net_send\<close> in every run.
\<close>

definition attacker_body :: "int \<Rightarrow> unit prog" where
  "attacker_body me =
     bnd choose' (\<lambda>action.
       if action = 0 then
         bnd (create_key me) (\<lambda>item.
         bnd (net_send item) (\<lambda>_.
         item_free item))
       else if action = 1 then
         bnd choose' (\<lambda>data.
         bnd (create_data_item data) (\<lambda>item.
         bnd (net_send item) (\<lambda>_.
         item_free item)))
       else if action = 2 then
         bnd net_receive (\<lambda>first.
         bnd net_receive (\<lambda>second.
         bnd (create_pair first second) (\<lambda>pair.
         bnd (item_free first) (\<lambda>_.
         bnd (item_free second) (\<lambda>_.
         bnd (net_send pair) (\<lambda>_.
         item_free pair))))))
       else if action = 3 then
         bnd net_receive (\<lambda>key.
         bnd net_receive (\<lambda>payload.
         bnd (check_is_key key) (\<lambda>_.
         bnd (hmacsha1 key payload) (\<lambda>hash.
         bnd (item_free key) (\<lambda>_.
         bnd (item_free payload) (\<lambda>_.
         bnd (net_send hash) (\<lambda>_.
         item_free hash)))))))
       else if action = 4 then
         bnd net_receive (\<lambda>pair.
         bnd (pair_get_first pair) (\<lambda>first.
         bnd (pair_get_second pair) (\<lambda>second.
         bnd (item_free pair) (\<lambda>_.
         bnd (net_send first) (\<lambda>_.
         bnd (item_free first) (\<lambda>_.
         bnd (net_send second) (\<lambda>_.
         item_free second)))))))
       else ret ())"

text \<open>The inner loop (lines 363-417); like the loop of the server it has no exit.\<close>

partial_function (option) attacker_loop ::
  "int \<Rightarrow> state \<Rightarrow> (error \<times> state) option" where
  "attacker_loop me s =
     (case attacker_body me s of
        (Inl e, s') \<Rightarrow> Some (e, s')
      | (Inr _, s') \<Rightarrow> attacker_loop me s')"

text \<open>
  \<^verbatim>\<open>attacker\<close> (lines 355-420). The outer loop creates a principal and enters the inner
  loop, which never hands control back: the statement after it and every further pass of
  the outer loop are unreachable.
\<close>

definition attacker :: "state \<Rightarrow> (error \<times> state) option" where
  "attacker s =
     (case create_principal s of
        (Inl e, s') \<Rightarrow> Some (e, s')
      | (Inr me, s') \<Rightarrow> attacker_loop me s')"

subsection \<open>The messages of the protocol\<close>

text \<open>
  The message that \<^verbatim>\<open>client\<close> builds at lines 265-269 and the message that
  \<^verbatim>\<open>server\<close> builds at lines 334-342, for the key \<^verbatim>\<open>key_item(creator, id)\<close>.
\<close>

definition request_message :: "int \<Rightarrow> int \<Rightarrow> item \<Rightarrow> item" where
  "request_message creator id' req =
     pair_item (hmacsha1_item creator id' (pair_item (data_item 0) req))
       (pair_item (data_item 0) req)"

definition response_message :: "int \<Rightarrow> int \<Rightarrow> item \<Rightarrow> item \<Rightarrow> item" where
  "response_message creator id' req resp =
     pair_item (hmacsha1_item creator id' (pair_item (data_item 1) (pair_item req resp)))
       (pair_item (data_item 1) (pair_item req resp))"

subsection \<open>Passes of a loop, sequences of calls\<close>

text \<open>
  The first \<open>n\<close> passes through the body of a loop \<^verbatim>\<open>for (;;)\<close>: the state in which
  pass \<open>n + 1\<close> starts, or the failure that stopped an earlier pass.
\<close>

fun passes :: "unit prog \<Rightarrow> nat \<Rightarrow> unit prog" where
  "passes body 0 = ret ()"
| "passes body (Suc n) = bnd (passes body n) (\<lambda>_. body)"

text \<open>
  The invariant of the inner loop of \<^verbatim>\<open>attacker\<close> (line 364), for the principal \<open>me\<close>:
  the world is \<open>mypub\<close>, as the \<^verbatim>\<open>requires\<close> clause of line 356 says, and the chunk
  \<^verbatim>\<open>principal(me, _)\<close> is owned.
\<close>

definition attacker_inv :: "env \<Rightarrow> int \<Rightarrow> state \<Rightarrow> bool" where
  "attacker_inv E me s = (world s = mypub E \<and> principal s me \<noteq> None)"

text \<open>
  A sequence of calls, run one after the other, with the list of their results; and
  \<^verbatim>\<open>create_key\<close> followed by a look at the value of the key it returned.
\<close>

fun run_all :: "'a prog list \<Rightarrow> 'a list prog" where
  "run_all [] = ret []"
| "run_all (m # ms) = bnd m (\<lambda>a. bnd (run_all ms) (\<lambda>as. ret (a # as)))"

definition new_key :: "int \<Rightarrow> item prog" where
  "new_key p = bnd (create_key p) get_item"

subsection \<open>A concrete scenario\<close>

text \<open>
  A scenario used to run the definitions: client 1 and server 2, both good, share key 0
  of principal 1; the client asks for \<^verbatim>\<open>data_item(42)\<close>, answered by
  \<^verbatim>\<open>data_item(7)\<close>, and for \<^verbatim>\<open>key_item(1, 1)\<close>, a key that is not public;
  principal 3 is bad.
\<close>

definition scenario_env :: env where
  "scenario_env =
     \<lparr>bad = (\<lambda>p. p = 3),
      request = (\<lambda>cl sv req. cl = 1 \<and> sv = 2 \<and> (req = data_item 42 \<or> req = key_item 1 1)),
      response = (\<lambda>cl sv req resp. cl = 1 \<and> sv = 2 \<and> req = data_item 42 \<and> resp = data_item 7),
      shared_with = (\<lambda>cl k. if cl = 1 \<and> k = 0 then 2 else - 1)\<rparr>"

definition scenario_state :: "(nat \<Rightarrow> item) \<Rightarrow> state" where
  "scenario_state w =
     \<lparr>heap = [Some (key_item 1 0), Some (data_item 42)],
      world = mypub scenario_env,
      wire = w,
      received = 0,
      sent = [],
      principals = 5,
      principal = [3 \<mapsto> 0, 4 \<mapsto> 2],
      choices = (\<lambda>n. 0),
      chosen = 0\<rparr>"

text \<open>A state that owns an item of each kind, and two items with the same value.\<close>

definition accessor_state :: state where
  "accessor_state =
     (scenario_state (\<lambda>n. data_item 0))
       \<lparr>heap := [Some (key_item 1 0), Some (data_item 42),
                 Some (pair_item (data_item 1) (data_item 2)),
                 Some (hmacsha1_item 1 0 (data_item 42)),
                 Some (data_item 42)]\<rparr>"

text \<open>The reply that the network offers to the client in the scenario.\<close>

definition scenario_reply :: item where
  "scenario_reply = response_message 1 0 (data_item 42) (data_item 7)"

text \<open>The same scenario with the request \<^verbatim>\<open>key_item(1, 1)\<close>.\<close>

definition secret_state :: state where
  "secret_state =
     (scenario_state (\<lambda>n. scenario_reply))
       \<lparr>heap := [Some (key_item 1 0), Some (key_item 1 1)]\<rparr>"

text \<open>
  The server of the scenario: its application answers \<^verbatim>\<open>data_item(7)\<close>, and the network
  offers it the request of client 1. In \<open>idle_state\<close> the network offers a data item.
\<close>

definition scenario_app :: "item \<Rightarrow> item" where
  "scenario_app req = data_item 7"

definition serving_state :: state where
  "serving_state = scenario_state (\<lambda>n. request_message 1 0 (data_item 42))"

definition idle_state :: state where
  "idle_state = scenario_state (\<lambda>n. data_item 0)"

section \<open>Properties\<close>

subsection \<open>Running the definitions\<close>

lemma cell_append: "cell (h @ [x]) p = (if p = length h then x else cell h p)"
  by (auto simp: cell_def nth_append)

lemma cell_update: "cell (h[q := None]) p = (if p = q then None else cell h p)"
  by (auto simp: cell_def)

lemma cell_Some_less: "cell h p = Some i \<Longrightarrow> p < length h"
  by (auto simp: cell_def split: if_splits)

lemma cell_append_less: "p < length h \<Longrightarrow> cell (h @ xs) p = cell h p"
  by (simp add: cell_def nth_append)

lemma cell_Cons: "cell (x # h) p = (case p of 0 \<Rightarrow> x | Suc q \<Rightarrow> cell h q)"
  by (auto simp: cell_def split: nat.splits)

lemma cell_Nil: "cell [] p = None"
  by (simp add: cell_def)

lemmas prog_defs = bnd_def ret_def throw_def abort_def get_item_def
  separate_def new_item_def item_at_def create_data_item_def create_pair_def item_free_def hmacsha1_def
  net_send_def net_receive_def pair_get_first_def pair_get_second_def hmacsha1_verify_def
  item_equals_def item_get_data_def check_is_key_def

lemmas chunk_defs = item_chunk_def key_chunk_def item_at_def

subsection \<open>The term algebra\<close>

text \<open>
  Claim C2. Soundness of \<open>mypub\<close> on hashes: when \<open>mypub\<close> holds of
  \<open>hmacsha1_item creator seq m\<close> and neither \<open>creator\<close> nor
  \<open>shared_with creator seq\<close> is bad, then \<open>m\<close> is a pair of a data item \<open>tag\<close> and an
  item \<open>s\<close>, and either \<open>tag = 0\<close> and the request event for \<open>s\<close> holds, or \<open>tag = 1\<close>,
  \<open>s\<close> is a pair of \<open>req\<close> and \<open>resp\<close>, and the response event for them holds.
\<close>

theorem mypub_hmac_sound:
  assumes "mypub E (hmacsha1_item creator seq m)"
      and "\<not> bad E creator"
      and "\<not> bad E (shared_with E creator seq)"
  shows "\<exists>tag s. m = pair_item (data_item tag) s
           \<and> ((tag = 0 \<and> request E creator (shared_with E creator seq) s)
              \<or> (tag = 1 \<and> (\<exists>req resp. s = pair_item req resp
                    \<and> response E creator (shared_with E creator seq) req resp)))"
  using assms by (auto split: item.splits if_splits)

theorem mypub_hmac_sound_witness:
  "mypub scenario_env (hmacsha1_item 1 0 (pair_item (data_item 1) (pair_item (data_item 42) (data_item 7))))
   \<and> \<not> bad scenario_env 1
   \<and> \<not> bad scenario_env (shared_with scenario_env 1 0)
   \<and> (\<exists>tag s. pair_item (data_item 1) (pair_item (data_item 42) (data_item 7)) = pair_item (data_item tag) s
         \<and> ((tag = 0 \<and> request scenario_env 1 (shared_with scenario_env 1 0) s)
            \<or> (tag = 1 \<and> (\<exists>req resp. s = pair_item req resp
                  \<and> response scenario_env 1 (shared_with scenario_env 1 0) req resp))))"
  using mypub_hmac_sound [of scenario_env 1 0
      "pair_item (data_item 1) (pair_item (data_item 42) (data_item 7))"]
  by (simp add: scenario_env_def)

text \<open>
  Claim C5. Constructor injectivity: two key items are equal exactly when their principals
  and their sequence numbers are equal; two hashes with the same creator and sequence
  number that are equal have equal payloads; and \<open>item_equals\<close>, called on two owned
  items, returns whether their values are equal and leaves the state as it was.
\<close>

theorem item_injective:
  "(key_item p1 n1 = key_item p2 n2 \<longleftrightarrow> p1 = p2 \<and> n1 = n2)
   \<and> (hmacsha1_item c k m1 = hmacsha1_item c k m2 \<longrightarrow> m1 = m2)
   \<and> (item_chunk s item1 i1 \<and> item_chunk s item2 i2 \<and> item1 \<noteq> item2 \<longrightarrow>
        item_equals item1 item2 s = (Inr (i1 = i2), s))"
  by (simp add: item_equals_def separate_def bnd_def ret_def get_item_def item_chunk_def)

theorem item_injective_witness:
  "(key_item 1 0 = key_item 1 0 \<longleftrightarrow> (1::int) = 1 \<and> (0::int) = 0)
   \<and> hmacsha1_item 1 0 (data_item 42) = hmacsha1_item 1 0 (data_item 42)
   \<and> data_item 42 = data_item 42
   \<and> item_chunk accessor_state 0 (key_item 1 0)
   \<and> item_chunk accessor_state 1 (data_item 42)
   \<and> item_chunk accessor_state 4 (data_item 42)
   \<and> item_equals 0 1 accessor_state = (Inr False, accessor_state)
   \<and> item_equals 1 4 accessor_state = (Inr True, accessor_state)"
  using item_injective [of 1 0 1 0 1 0 "data_item 42" "data_item 42"
      accessor_state 0 "key_item 1 0" 1 "data_item 42"]
    item_injective [of 1 0 1 0 1 0 "data_item 42" "data_item 42"
      accessor_state 1 "data_item 42" 4 "data_item 42"]
  by (simp add: accessor_state_def chunk_defs cell_Cons)

text \<open>
  Claim C6. Round trip of the term model: on an item that represents a pair,
  \<open>pair_get_first\<close> and \<open>pair_get_second\<close> return a new item that represents the first
  and the second component, and the pair is still owned; \<open>item_get_data\<close> on an item that
  represents \<open>data_item d\<close> returns \<open>d\<close>. An accessor applied to an item of another kind
  fails with \<open>TypeMismatch\<close> and leaves the state as it was.
\<close>

theorem accessor_round_trip:
  "(item_chunk s pp (pair_item a b) \<longrightarrow>
      (\<exists>r s'. pair_get_first pp s = (Inr r, s') \<and> r \<noteq> pp
          \<and> item_chunk s' r a \<and> item_chunk s' pp (pair_item a b))
    \<and> (\<exists>r s'. pair_get_second pp s = (Inr r, s') \<and> r \<noteq> pp
          \<and> item_chunk s' r b \<and> item_chunk s' pp (pair_item a b))
    \<and> item_get_data pp s = (Inl TypeMismatch, s))
   \<and> (item_chunk s dp (data_item d) \<longrightarrow>
        item_get_data dp s = (Inr d, s)
      \<and> pair_get_first dp s = (Inl TypeMismatch, s)
      \<and> pair_get_second dp s = (Inl TypeMismatch, s))
   \<and> (item_chunk s kp (key_item o' k) \<longrightarrow>
        item_get_data kp s = (Inl TypeMismatch, s)
      \<and> pair_get_first kp s = (Inl TypeMismatch, s)
      \<and> pair_get_second kp s = (Inl TypeMismatch, s))
   \<and> (item_chunk s hp (hmacsha1_item c n m) \<longrightarrow>
        item_get_data hp s = (Inl TypeMismatch, s)
      \<and> pair_get_first hp s = (Inl TypeMismatch, s)
      \<and> pair_get_second hp s = (Inl TypeMismatch, s))"
  by (auto simp: prog_defs item_chunk_def cell_append dest: cell_Some_less)

theorem accessor_round_trip_witness:
  "item_chunk accessor_state 2 (pair_item (data_item 1) (data_item 2))
   \<and> fst (pair_get_first 2 accessor_state) = Inr 5
   \<and> item_chunk (snd (pair_get_first 2 accessor_state)) 5 (data_item 1)
   \<and> fst (pair_get_second 2 accessor_state) = Inr 5
   \<and> item_chunk (snd (pair_get_second 2 accessor_state)) 5 (data_item 2)
   \<and> item_chunk accessor_state 1 (data_item 42)
   \<and> item_get_data 1 accessor_state = (Inr 42, accessor_state)
   \<and> item_chunk accessor_state 0 (key_item 1 0)
   \<and> pair_get_first 0 accessor_state = (Inl TypeMismatch, accessor_state)
   \<and> item_chunk accessor_state 3 (hmacsha1_item 1 0 (data_item 42))
   \<and> pair_get_second 3 accessor_state = (Inl TypeMismatch, accessor_state)
   \<and> item_get_data 2 accessor_state = (Inl TypeMismatch, accessor_state)"
  using accessor_round_trip [of accessor_state 2 "data_item 1" "data_item 2" 1 42 0 1 0 3 1 0
      "data_item 42"]
  by (auto simp: accessor_state_def scenario_state_def prog_defs item_chunk_def cell_Cons cell_Nil)

subsection \<open>The network\<close>

text \<open>
  Claim C3. The network gate: \<open>net_send\<close> of an owned item with value \<open>d\<close> goes through
  exactly when \<open>world s d\<close> holds, and is the contract violation \<open>NotPublic\<close> otherwise;
  every item that \<open>net_receive\<close> returns satisfies \<open>world s\<close>, and \<open>net_receive\<close> returns
  whenever the item offered satisfies it; neither operation changes \<open>world s\<close>.
\<close>

theorem network_gate:
  "(item_chunk s datagram d \<longrightarrow>
      (world s d \<longrightarrow> net_send datagram s = (Inr (), s\<lparr>sent := sent s @ [d]\<rparr>))
    \<and> (\<not> world s d \<longrightarrow> net_send datagram s = (Inl NotPublic, s))
    \<and> world (snd (net_send datagram s)) = world s
    \<and> item_chunk (snd (net_send datagram s)) datagram d)
   \<and> (net_receive s = (Inr r, s') \<longrightarrow>
        (\<exists>d. item_chunk s' r d \<and> world s d \<and> world s' = world s))
   \<and> (world s (wire s (received s)) \<longrightarrow> fst (net_receive s) = Inr (length (heap s)))
   \<and> world (snd (net_receive s)) = world s"
  by (auto simp: prog_defs item_chunk_def cell_append Let_def split: if_splits)

theorem network_gate_witness:
  "item_chunk (scenario_state (\<lambda>n. scenario_reply)) 1 (data_item 42)
   \<and> world (scenario_state (\<lambda>n. scenario_reply)) (data_item 42)
   \<and> fst (net_send 1 (scenario_state (\<lambda>n. scenario_reply))) = Inr ()
   \<and> sent (snd (net_send 1 (scenario_state (\<lambda>n. scenario_reply)))) = [data_item 42]
   \<and> item_chunk (scenario_state (\<lambda>n. scenario_reply)) 0 (key_item 1 0)
   \<and> \<not> world (scenario_state (\<lambda>n. scenario_reply)) (key_item 1 0)
   \<and> net_send 0 (scenario_state (\<lambda>n. scenario_reply))
       = (Inl NotPublic, scenario_state (\<lambda>n. scenario_reply))
   \<and> fst (net_receive (scenario_state (\<lambda>n. scenario_reply))) = Inr 2
   \<and> item_chunk (snd (net_receive (scenario_state (\<lambda>n. scenario_reply)))) 2 scenario_reply
   \<and> world (scenario_state (\<lambda>n. scenario_reply)) scenario_reply"
  using network_gate [of "scenario_state (\<lambda>n. scenario_reply)" 1 "data_item 42"
      2 "snd (net_receive (scenario_state (\<lambda>n. scenario_reply)))"]
    network_gate [of "scenario_state (\<lambda>n. scenario_reply)" 0 "key_item 1 0"
      2 "snd (net_receive (scenario_state (\<lambda>n. scenario_reply)))"]
  by (simp add: scenario_state_def scenario_env_def scenario_reply_def response_message_def
      prog_defs item_chunk_def cell_Cons cell_Nil Let_def)

subsection \<open>The client\<close>

lemma client_send_run:
  assumes "cell (heap s) key = Some (key_item creator id')"
      and "cell (heap s) requestp = Some req"
  shows "client_send key requestp s =
     (if world s (request_message creator id' req)
      then (Inr (), s\<lparr>heap := heap s @ [None, None, None, None],
                       sent := sent s @ [request_message creator id' req]\<rparr>)
      else (Inl NotPublic,
            s\<lparr>heap := heap s @ [None, None, None, Some (request_message creator id' req)]\<rparr>))"
  using assms cell_Some_less[OF assms(1)] cell_Some_less[OF assms(2)]
  apply (simp add: client_send_def prog_defs cell_append cell_update request_message_def
      del: append_assoc)
  apply (simp add: list_update_append)
  done

lemma client_receive_run:
  assumes "cell (heap s) key = Some (key_item creator id')"
      and "cell (heap s) requestp = Some req"
      and "wire s (received s) = response_message creator id' req resp"
      and "world s (response_message creator id' req resp)"
  shows "client_receive key requestp s =
     (Inr (length (heap s) + 6),
      s\<lparr>received := Suc (received s),
        heap := heap s @ [None, None, None, None, None, None, Some resp]\<rparr>)"
  using assms cell_Some_less[OF assms(1)] cell_Some_less[OF assms(2)]
  apply (simp add: client_receive_def prog_defs cell_append cell_update response_message_def del: append_assoc)
  apply (simp add: list_update_append)
  done

lemma client_receive_returns:
  assumes "cell (heap s) key = Some (key_item creator id')"
      and "cell (heap s) requestp = Some req"
      and "client_receive key requestp s = (Inr result, s')"
  shows "\<exists>resp. wire s (received s) = response_message creator id' req resp
           \<and> world s (response_message creator id' req resp)"
  using assms cell_Some_less[OF assms(1)] cell_Some_less[OF assms(2)]
  by (simp add: client_receive_def prog_defs cell_append cell_update response_message_def Let_def
      split: item.splits if_splits del: append_assoc)

lemma mypub_request_message:
  "mypub E (request_message creator id' req) \<longleftrightarrow>
     (bad E creator \<or> bad E (shared_with E creator id')
        \<or> request E creator (shared_with E creator id') req) \<and> mypub E req"
  by (simp add: request_message_def)

lemma mypub_response_message:
  "mypub E (response_message creator id' req resp) \<longleftrightarrow>
     (bad E creator \<or> bad E (shared_with E creator id')
        \<or> response E creator (shared_with E creator id') req resp) \<and> mypub E req \<and> mypub E resp"
  by (simp add: response_message_def)

lemma client_returns:
  assumes w: "world s = mypub E"
      and kc: "key_chunk s key creator id'"
      and rc: "item_chunk s requestp req"
      and run: "client sv key requestp s = (Inr result, s')"
  shows "\<exists>resp. wire s (received s) = response_message creator id' req resp
           \<and> mypub E (request_message creator id' req)
           \<and> mypub E (response_message creator id' req resp)
           \<and> result = length (heap s) + 10
           \<and> s' = s\<lparr>heap := heap s @ [None, None, None, None, None, None, None, None, None, None,
                                       Some resp],
                    sent := sent s @ [request_message creator id' req],
                    received := Suc (received s)\<rparr>"
proof -
  let ?s1 = "s\<lparr>heap := heap s @ [None, None, None, None],
               sent := sent s @ [request_message creator id' req]\<rparr>"
  from kc rc have k: "cell (heap s) key = Some (key_item creator id')"
    and r: "cell (heap s) requestp = Some req"
    by (simp_all add: chunk_defs)
  have m: "world s (request_message creator id' req)"
  proof (rule ccontr)
    assume "\<not> world s (request_message creator id' req)"
    with client_send_run [OF k r] run show False
      by (simp add: client_def bnd_def)
  qed
  have send: "client_send key requestp s = (Inr (), ?s1)"
    using client_send_run [OF k r] m by simp
  with run have recv: "client_receive key requestp ?s1 = (Inr result, s')"
    by (simp add: client_def bnd_def)
  have k1: "cell (heap ?s1) key = Some (key_item creator id')"
    and r1: "cell (heap ?s1) requestp = Some req"
    using k r cell_Some_less [OF k] cell_Some_less [OF r] by (simp_all add: cell_append_less)
  from client_receive_returns [OF k1 r1 recv] obtain resp
    where wr: "wire ?s1 (received ?s1) = response_message creator id' req resp"
      and pr: "world ?s1 (response_message creator id' req resp)"
    by blast
  from client_receive_run [OF k1 r1 wr pr] recv
  have "result = length (heap s) + 10"
    and "s' = s\<lparr>heap := heap s @ [None, None, None, None, None, None, None, None, None, None,
                                  Some resp],
               sent := sent s @ [request_message creator id' req],
               received := Suc (received s)\<rparr>"
    by simp_all
  with wr pr m w show ?thesis by auto
qed

text \<open>
  Claim C1. End-to-end integrity of the client: when the world is \<open>mypub\<close>, the caller
  owns the key with value \<open>key_item creator id'\<close> and the request with value \<open>req\<close>, the
  key is shared with the server, the request event holds, and the call of \<open>client\<close>
  returns an item, then that item represents a value \<open>resp\<close> such that the creator is bad,
  or the server is bad, or the response event holds for \<open>req\<close> and \<open>resp\<close>; the rest of
  the postcondition (the world, the key and the request are as before) holds too.
\<close>

theorem client_integrity:
  assumes "world s = mypub E"
      and "key_chunk s key creator id'"
      and "item_chunk s requestp req"
      and "shared_with E creator id' = sv"
      and "request E creator sv req"
      and "client sv key requestp s = (Inr result, s')"
  shows "\<exists>resp. item_chunk s' result resp
           \<and> (bad E creator \<or> bad E sv \<or> response E creator sv req resp)
           \<and> world s' = mypub E \<and> key_chunk s' key creator id' \<and> item_chunk s' requestp req"
proof -
  from client_returns [OF assms(1,2,3,6)] obtain resp
    where p: "mypub E (response_message creator id' req resp)"
      and res: "result = length (heap s) + 10"
      and s': "s' = s\<lparr>heap := heap s @ [None, None, None, None, None, None, None, None, None,
                                        None, Some resp],
                      sent := sent s @ [request_message creator id' req],
                      received := Suc (received s)\<rparr>"
    by blast
  from assms have sh: "shared_with E creator id' = sv"
    and k: "cell (heap s) key = Some (key_item creator id')"
    and r: "cell (heap s) requestp = Some req"
    and w: "world s = mypub E"
    by (auto simp: chunk_defs)
  have "item_chunk s' result resp"
    by (simp add: s' res chunk_defs cell_def nth_append)
  moreover from p sh have "bad E creator \<or> bad E sv \<or> response E creator sv req resp"
    by (auto simp: mypub_response_message)
  moreover have "world s' = mypub E" by (simp add: s' w)
  moreover have "key_chunk s' key creator id'" "item_chunk s' requestp req"
    using k r cell_Some_less [OF k] cell_Some_less [OF r]
    by (simp_all add: s' chunk_defs cell_append_less)
  ultimately show ?thesis by blast
qed

lemma scenario_client_run:
  "client 2 0 1 (scenario_state (\<lambda>n. scenario_reply)) =
     (Inr 12,
      (scenario_state (\<lambda>n. scenario_reply))
        \<lparr>heap := [Some (key_item 1 0), Some (data_item 42), None, None, None, None, None, None,
                  None, None, None, None, Some (data_item 7)],
         sent := [request_message 1 0 (data_item 42)],
         received := 1\<rparr>)"
proof -
  let ?s = "scenario_state (\<lambda>n. scenario_reply)"
  let ?s1 = "?s\<lparr>heap := heap ?s @ [None, None, None, None],
                sent := sent ?s @ [request_message 1 0 (data_item 42)]\<rparr>"
  have k: "cell (heap ?s) 0 = Some (key_item 1 0)" and r: "cell (heap ?s) 1 = Some (data_item 42)"
    by (simp_all add: scenario_state_def cell_Cons)
  have m: "world ?s (request_message 1 0 (data_item 42))"
    by (simp add: scenario_state_def scenario_env_def request_message_def)
  have send: "client_send 0 1 ?s = (Inr (), ?s1)"
    using client_send_run [OF k r] m by simp
  have k1: "cell (heap ?s1) 0 = Some (key_item 1 0)"
    and r1: "cell (heap ?s1) 1 = Some (data_item 42)"
    by (simp_all add: scenario_state_def cell_Cons)
  have w1: "wire ?s1 (received ?s1) = response_message 1 0 (data_item 42) (data_item 7)"
    by (simp add: scenario_state_def scenario_reply_def)
  have p1: "world ?s1 (response_message 1 0 (data_item 42) (data_item 7))"
    by (simp add: scenario_state_def scenario_env_def response_message_def)
  show ?thesis
    using send client_receive_run [OF k1 r1 w1 p1]
    by (simp add: client_def bnd_def scenario_state_def)
qed

lemma scenario_client_pre:
  "client_pre scenario_env 2 0 1 1 0 (data_item 42) (scenario_state (\<lambda>n. scenario_reply))"
  by (simp add: client_pre_def chunk_defs scenario_state_def scenario_env_def cell_Cons)

theorem client_integrity_witness:
  "world (scenario_state (\<lambda>n. scenario_reply)) = mypub scenario_env
   \<and> key_chunk (scenario_state (\<lambda>n. scenario_reply)) 0 1 0
   \<and> item_chunk (scenario_state (\<lambda>n. scenario_reply)) 1 (data_item 42)
   \<and> shared_with scenario_env 1 0 = 2
   \<and> request scenario_env 1 2 (data_item 42)
   \<and> fst (client 2 0 1 (scenario_state (\<lambda>n. scenario_reply))) = Inr 12
   \<and> item_chunk (snd (client 2 0 1 (scenario_state (\<lambda>n. scenario_reply)))) 12 (data_item 7)
   \<and> \<not> bad scenario_env 1 \<and> \<not> bad scenario_env 2
   \<and> response scenario_env 1 2 (data_item 42) (data_item 7)"
proof -
  let ?s = "scenario_state (\<lambda>n. scenario_reply)"
  from scenario_client_pre have pre: "world ?s = mypub scenario_env"
    "key_chunk ?s 0 1 0" "item_chunk ?s 1 (data_item 42)"
    "shared_with scenario_env 1 0 = 2" "request scenario_env 1 2 (data_item 42)"
    by (simp_all add: client_pre_def)
  have a: "fst (client 2 0 1 ?s) = Inr 12"
    by (simp only: scenario_client_run fst_conv)
  have b: "item_chunk (snd (client 2 0 1 ?s)) 12 (data_item 7)"
    by (simp only: scenario_client_run snd_conv) (simp add: chunk_defs cell_Cons)
  have c: "\<not> bad scenario_env 1 \<and> \<not> bad scenario_env 2
           \<and> response scenario_env 1 2 (data_item 42) (data_item 7)"
    by (simp add: scenario_env_def)
  from a have run: "client 2 0 1 ?s = (Inr 12, snd (client 2 0 1 ?s))"
    by (metis prod.collapse)
  from client_integrity [OF pre run] a b c pre
  show ?thesis by blast
qed



text \<open>
  Claim C9. The contract of \<open>client\<close> also requires that the request is public. When the
  world is \<open>mypub\<close>, the key is owned and shared with the server and the request event
  holds, the precondition of \<open>client\<close> holds exactly when \<open>mypub\<close> holds of the request,
  and exactly then the client's send is accepted; a call with a request that is not public
  is outside the contract and stops at \<open>net_send\<close> with \<open>NotPublic\<close>, nothing being sent.
\<close>

theorem client_needs_public_request:
  assumes "world s = mypub E"
      and "key_chunk s key creator id'"
      and "item_chunk s requestp req"
      and "key \<noteq> requestp"
      and "request E creator sv req"
      and "shared_with E creator id' = sv"
  shows "(client_pre E sv key requestp creator id' req s \<longleftrightarrow> mypub E req)
       \<and> (fst (client_send key requestp s) = Inr () \<longleftrightarrow> mypub E req)
       \<and> (\<not> mypub E req \<longrightarrow>
            fst (client sv key requestp s) = Inl NotPublic
          \<and> sent (snd (client sv key requestp s)) = sent s)"
proof -
  from assms have k: "cell (heap s) key = Some (key_item creator id')"
    and r: "cell (heap s) requestp = Some req"
    by (simp_all add: chunk_defs)
  from assms have m: "mypub E (request_message creator id' req) \<longleftrightarrow> mypub E req"
    by (auto simp: mypub_request_message)
  show ?thesis
    using assms m client_send_run [OF k r]
    by (simp add: client_pre_def client_def bnd_def)
qed

theorem client_needs_public_request_witness:
  "world secret_state = mypub scenario_env
   \<and> key_chunk secret_state 0 1 0
   \<and> item_chunk secret_state 1 (key_item 1 1)
   \<and> (0::nat) \<noteq> 1
   \<and> request scenario_env 1 2 (key_item 1 1)
   \<and> shared_with scenario_env 1 0 = 2
   \<and> \<not> mypub scenario_env (key_item 1 1)
   \<and> \<not> client_pre scenario_env 2 0 1 1 0 (key_item 1 1) secret_state
   \<and> fst (client 2 0 1 secret_state) = Inl NotPublic
   \<and> sent (snd (client 2 0 1 secret_state)) = sent secret_state"
  using client_needs_public_request [of secret_state scenario_env 0 1 0 1 "key_item 1 1" 2]
  by (simp add: secret_state_def scenario_state_def scenario_env_def chunk_defs cell_Cons)

subsection \<open>The server\<close>

lemma server_body_run:
  assumes "cell (heap s) key = Some (key_item creator id')"
      and "wire s (received s) = request_message creator id' req"
      and "world s (request_message creator id' req)"
      and "bad E creator \<or> bad E (shared_with E creator id')
             \<or> request E creator (shared_with E creator id') req"
      and "mypub E (app req)"
      and "response E creator (shared_with E creator id') req (app req)"
      and "world s (response_message creator id' req (app req))"
  shows "server_body E app key s =
     (Inr (),
      s\<lparr>received := Suc (received s),
        heap := heap s @ [None, None, None, None, None, None, None, None, None, None, None],
        sent := sent s @ [response_message creator id' req (app req)]\<rparr>)"
  using assms cell_Some_less[OF assms(1)]
  apply (simp add: server_body_def compute_response_def prog_defs cell_append cell_update
      request_message_def response_message_def Let_def del: append_assoc)
  apply (simp add: list_update_append)
  done

lemma server_body_returns:
  assumes "cell (heap s) key = Some (key_item creator id')"
      and "server_body E app key s = (Inr u, s')"
  shows "\<exists>req. wire s (received s) = request_message creator id' req
           \<and> world s (request_message creator id' req)
           \<and> (bad E creator \<or> bad E (shared_with E creator id')
                \<or> request E creator (shared_with E creator id') req)
           \<and> mypub E (app req)
           \<and> response E creator (shared_with E creator id') req (app req)
           \<and> world s (response_message creator id' req (app req))"
  using assms cell_Some_less[OF assms(1)]
  by (simp add: server_body_def compute_response_def prog_defs cell_append cell_update
      request_message_def response_message_def Let_def
      split: item.splits if_splits del: append_assoc)

lemma server_body_abort:
  assumes "cell (heap s) key = Some (key_item creator id')"
      and "wire s (received s) =
             pair_item (hmacsha1_item creator id' (pair_item (data_item tagValue) body))
               (pair_item (data_item tagValue) body)"
      and "world s (wire s (received s))"
      and "tagValue \<noteq> 0"
  shows "fst (server_body E app key s) = Inl Abort
       \<and> sent (snd (server_body E app key s)) = sent s"
  using assms cell_Some_less[OF assms(1)]
  by (simp add: server_body_def compute_response_def prog_defs cell_append cell_update
      Let_def del: append_assoc)


lemma server_unroll:
  "server E app serverId key s =
     (case passes (server_body E app key) n s of
        (Inl e, s') \<Rightarrow> Some (e, s')
      | (Inr _, s') \<Rightarrow> server E app serverId key s')"
proof (induction n)
  case 0
  show ?case by (simp add: ret_def)
next
  case (Suc n)
  show ?case
  proof (cases "passes (server_body E app key) n s")
    case (Pair res s1)
    then show ?thesis
      using Suc
      by (cases res) (simp_all add: bnd_def server.simps [of E app serverId key s1])
  qed
qed

lemma server_body_inv:
  assumes inv: "server_inv E key creator id' s"
      and run: "server_body E app key s = (Inr u, s')"
  shows "\<exists>req. wire s (received s) = request_message creator id' req
           \<and> mypub E (request_message creator id' req)
           \<and> response E creator (shared_with E creator id') req (app req)
           \<and> mypub E (response_message creator id' req (app req))
           \<and> s' = s\<lparr>received := Suc (received s),
                    heap := heap s @ [None, None, None, None, None, None, None, None, None, None,
                                       None],
                    sent := sent s @ [response_message creator id' req (app req)]\<rparr>"
proof -
  from inv have k: "cell (heap s) key = Some (key_item creator id')" and w: "world s = mypub E"
    by (simp_all add: server_inv_def chunk_defs)
  from server_body_returns [OF k run] obtain req
    where a: "wire s (received s) = request_message creator id' req"
      and b: "world s (request_message creator id' req)"
      and c: "bad E creator \<or> bad E (shared_with E creator id')
                \<or> request E creator (shared_with E creator id') req"
      and d: "mypub E (app req)"
      and e: "response E creator (shared_with E creator id') req (app req)"
      and f: "world s (response_message creator id' req (app req))"
    by blast
  from server_body_run [of s key creator id' req E app] k a b c d e f run w show ?thesis
    by auto
qed

lemma server_inv_body:
  assumes "server_inv E key creator id' s" and "server_body E app key s = (Inr u, s')"
  shows "server_inv E key creator id' s'"
proof -
  from assms(1) have k: "cell (heap s) key = Some (key_item creator id')"
    by (simp add: server_inv_def chunk_defs)
  from server_body_inv [OF assms] obtain req
    where "s' = s\<lparr>received := Suc (received s),
                  heap := heap s @ [None, None, None, None, None, None, None, None, None, None,
                                     None],
                  sent := sent s @ [response_message creator id' req (app req)]\<rparr>"
    by blast
  with assms(1) k cell_Some_less [OF k] show ?thesis
    by (simp add: server_inv_def chunk_defs cell_append_less)
qed

lemma server_inv_passes:
  "server_inv E key creator id' s \<Longrightarrow> passes (server_body E app key) n s = (Inr u, s')
     \<Longrightarrow> server_inv E key creator id' s'"
proof (induction n arbitrary: s' u)
  case 0
  then show ?case by (simp add: ret_def)
next
  case (Suc n)
  from Suc.prems(2) obtain s1
    where p: "passes (server_body E app key) n s = (Inr (), s1)"
      and b: "server_body E app key s1 = (Inr u, s')"
    by (auto simp: bnd_def split: prod.splits sum.splits)
  from Suc.IH [OF Suc.prems(1) p] b show ?case
    by (rule server_inv_body)
qed

text \<open>
  Claim C4. Behaviour of an iteration of the server. Let the precondition of \<open>server\<close> hold
  at the start (the world is \<open>mypub\<close>, the key is owned with value
  \<open>key_item creator id'\<close> and is shared with \<open>serverId\<close>), and let \<open>s\<close> be the state in
  which an iteration starts, after \<open>n\<close> earlier ones.
  \<^item> If the iteration completes, then the message it received is the pair of the keyed
    hash of \<open>(data_item 0, req)\<close> and of that payload, the response \<open>resp\<close> of
    \<open>compute_response\<close> satisfies the response event, exactly one message is sent, the
    pair of the keyed hash of \<open>(data_item 1, (req, resp))\<close> and of that payload, this
    message satisfies \<open>mypub\<close>, and the loop invariant holds again.
  \<^item> Every request is answered: if the message received is public and is the pair of the
    keyed hash of \<open>(data_item 0, req)\<close> and of that payload, and the server application
    keeps its contract on \<open>req\<close> (its response is public and satisfies the response
    event), then the iteration completes, the message built from \<open>req\<close> and the response
    satisfies \<open>mypub\<close>, it is the one message sent, one message has been received, and
    every item the iteration created has been freed.
  \<^item> If the message received carries a verified hash and a tag that is a data item other
    than 0, the iteration aborts and sends nothing.
\<close>

theorem server_iteration:
  assumes "server_pre E serverId key creator id' s0"
      and "passes (server_body E app key) n s0 = (Inr (), s)"
  shows "(server_body E app key s = (Inr (), s') \<longrightarrow>
           (\<exists>req resp.
               wire s (received s) = request_message creator id' req
             \<and> resp = app req
             \<and> response E creator serverId req resp
             \<and> sent s' = sent s @ [response_message creator id' req resp]
             \<and> mypub E (response_message creator id' req resp)
             \<and> server_inv E key creator id' s'))
       \<and> (wire s (received s) = request_message creator id' request0
            \<and> mypub E (request_message creator id' request0)
            \<and> mypub E (app request0)
            \<and> response E creator serverId request0 (app request0) \<longrightarrow>
          mypub E (response_message creator id' request0 (app request0))
            \<and> server_body E app key s =
                (Inr (),
                 s\<lparr>received := Suc (received s),
                   heap := heap s @ [None, None, None, None, None, None, None, None, None, None,
                                      None],
                   sent := sent s @ [response_message creator id' request0 (app request0)]\<rparr>))
       \<and> (tagValue \<noteq> 0
            \<and> wire s (received s) =
                 pair_item (hmacsha1_item creator id' (pair_item (data_item tagValue) body))
                   (pair_item (data_item tagValue) body)
            \<and> mypub E (wire s (received s)) \<longrightarrow>
          fst (server_body E app key s) = Inl Abort
            \<and> sent (snd (server_body E app key s)) = sent s)"
proof -
  from assms(1) have inv0: "server_inv E key creator id' s0"
    and sh: "shared_with E creator id' = serverId"
    by (simp_all add: server_pre_def server_inv_def)
  from server_inv_passes [OF inv0 assms(2)] have inv: "server_inv E key creator id' s" .
  then have k: "cell (heap s) key = Some (key_item creator id')" and w: "world s = mypub E"
    by (simp_all add: server_inv_def chunk_defs)
  have completed: "\<exists>req resp.
             wire s (received s) = request_message creator id' req
           \<and> resp = app req
           \<and> response E creator serverId req resp
           \<and> sent s' = sent s @ [response_message creator id' req resp]
           \<and> mypub E (response_message creator id' req resp)
           \<and> server_inv E key creator id' s'"
    if run: "server_body E app key s = (Inr (), s')"
    using server_body_inv [OF inv run] server_inv_body [OF inv run] sh by auto
  have answered: "mypub E (response_message creator id' request0 (app request0))
           \<and> server_body E app key s =
                (Inr (),
                 s\<lparr>received := Suc (received s),
                   heap := heap s @ [None, None, None, None, None, None, None, None, None, None,
                                      None],
                   sent := sent s @ [response_message creator id' request0 (app request0)]\<rparr>)"
    if a: "wire s (received s) = request_message creator id' request0
            \<and> mypub E (request_message creator id' request0)
            \<and> mypub E (app request0)
            \<and> response E creator serverId request0 (app request0)"
  proof -
    from a have wr: "wire s (received s) = request_message creator id' request0"
      and mq: "mypub E (request_message creator id' request0)"
      and ma: "mypub E (app request0)"
      and rs: "response E creator (shared_with E creator id') request0 (app request0)"
      using sh by blast+
    from mq have pre: "bad E creator \<or> bad E (shared_with E creator id')
                         \<or> request E creator (shared_with E creator id') request0"
      and mr: "mypub E request0"
      by (simp_all add: mypub_request_message)
    from rs mr ma have reply: "mypub E (response_message creator id' request0 (app request0))"
      by (simp add: mypub_response_message)
    from mq w have pw: "world s (request_message creator id' request0)"
      by simp
    from reply w have rw: "world s (response_message creator id' request0 (app request0))"
      by simp
    from server_body_run [of s key creator id' request0 E app] k wr pw pre ma rs rw reply
    show ?thesis
      by blast
  qed
  have aborted: "fst (server_body E app key s) = Inl Abort
            \<and> sent (snd (server_body E app key s)) = sent s"
    if a: "tagValue \<noteq> 0
            \<and> wire s (received s) =
                 pair_item (hmacsha1_item creator id' (pair_item (data_item tagValue) body))
                   (pair_item (data_item tagValue) body)
            \<and> mypub E (wire s (received s))"
  proof -
    from a have t: "tagValue \<noteq> 0"
      and wr: "wire s (received s) =
                 pair_item (hmacsha1_item creator id' (pair_item (data_item tagValue) body))
                   (pair_item (data_item tagValue) body)"
      and mp: "mypub E (wire s (received s))"
      by blast+
    from mp w have pw: "world s (wire s (received s))"
      by simp
    from server_body_abort [OF k wr pw t] show ?thesis .
  qed
  from completed answered aborted show ?thesis
    by blast
qed

theorem server_iteration_witness:
  "server_pre scenario_env 2 0 1 0 serving_state
   \<and> fst (passes (server_body scenario_env scenario_app 0) 1 serving_state) = Inr ()
   \<and> wire (snd (passes (server_body scenario_env scenario_app 0) 1 serving_state))
        (received (snd (passes (server_body scenario_env scenario_app 0) 1 serving_state)))
       = request_message 1 0 (data_item 42)
   \<and> mypub scenario_env (request_message 1 0 (data_item 42))
   \<and> mypub scenario_env (scenario_app (data_item 42))
   \<and> response scenario_env 1 2 (data_item 42) (scenario_app (data_item 42))
   \<and> fst (server_body scenario_env scenario_app 0
             (snd (passes (server_body scenario_env scenario_app 0) 1 serving_state))) = Inr ()
   \<and> sent (snd (server_body scenario_env scenario_app 0
             (snd (passes (server_body scenario_env scenario_app 0) 1 serving_state))))
       = [response_message 1 0 (data_item 42) (data_item 7),
          response_message 1 0 (data_item 42) (data_item 7)]
   \<and> mypub scenario_env (response_message 1 0 (data_item 42) (data_item 7))
   \<and> server_pre scenario_env 2 0 1 0 (scenario_state (\<lambda>n. scenario_reply))
   \<and> wire (scenario_state (\<lambda>n. scenario_reply)) (received (scenario_state (\<lambda>n. scenario_reply)))
       = pair_item (hmacsha1_item 1 0 (pair_item (data_item 1) (pair_item (data_item 42) (data_item 7))))
           (pair_item (data_item 1) (pair_item (data_item 42) (data_item 7)))
   \<and> mypub scenario_env scenario_reply
   \<and> fst (server_body scenario_env scenario_app 0 (scenario_state (\<lambda>n. scenario_reply))) = Inl Abort"
proof -
  let ?body = "server_body scenario_env scenario_app 0"
  let ?q = "request_message 1 0 (data_item 42)"
  let ?m = "response_message 1 0 (data_item 42) (data_item 7)"
  let ?s1 = "serving_state
      \<lparr>received := 1,
        heap := heap serving_state @ [None, None, None, None, None, None, None, None, None, None, None],
        sent := [?m]\<rparr>"
  let ?t = "scenario_state (\<lambda>n. scenario_reply)"
  have pre: "server_pre scenario_env 2 0 1 0 serving_state"
    by (simp add: server_pre_def serving_state_def scenario_state_def scenario_env_def chunk_defs
        cell_Cons)
  have p00: "passes ?body 0 serving_state = (Inr (), serving_state)"
    by (simp add: ret_def)
  have w0: "wire serving_state (received serving_state) = ?q"
    by (simp add: serving_state_def scenario_state_def)
  have mq: "mypub scenario_env ?q"
    and ma: "mypub scenario_env (scenario_app (data_item 42))"
    and r: "response scenario_env 1 2 (data_item 42) (scenario_app (data_item 42))"
    by (simp_all add: scenario_env_def scenario_app_def request_message_def)
  from server_iteration [OF pre p00, of _ "data_item 42"] w0 mq ma r
  have b1: "?body serving_state = (Inr (), ?s1)"
    and mp: "mypub scenario_env ?m"
    by (simp_all add: scenario_app_def serving_state_def scenario_state_def)
  from b1 have p1: "passes ?body 1 serving_state = (Inr (), ?s1)"
    by (simp add: bnd_def ret_def)
  have w1: "wire ?s1 (received ?s1) = ?q"
    by (simp add: serving_state_def scenario_state_def)
  from server_iteration [OF pre p1, of _ "data_item 42"] w1 mq ma r
  have b2: "?body ?s1 = (Inr (), ?s1\<lparr>received := 2,
        heap := heap ?s1 @ [None, None, None, None, None, None, None, None, None, None, None],
        sent := [?m, ?m]\<rparr>)"
    by (simp add: scenario_app_def serving_state_def scenario_state_def)
  have pre': "server_pre scenario_env 2 0 1 0 ?t"
    by (simp add: server_pre_def scenario_state_def scenario_env_def chunk_defs cell_Cons)
  have p0: "passes ?body 0 ?t = (Inr (), ?t)"
    by (simp add: ret_def)
  have wr: "wire ?t (received ?t)
       = pair_item (hmacsha1_item 1 0 (pair_item (data_item 1) (pair_item (data_item 42) (data_item 7))))
           (pair_item (data_item 1) (pair_item (data_item 42) (data_item 7)))"
    by (simp add: scenario_state_def scenario_reply_def response_message_def)
  have mr: "mypub scenario_env scenario_reply"
    by (simp add: scenario_reply_def scenario_env_def response_message_def)
  have ne: "(1::int) \<noteq> 0" by simp
  from mr wr have mw: "mypub scenario_env (wire ?t (received ?t))"
    by (simp add: scenario_reply_def response_message_def scenario_state_def)
  from server_iteration [OF pre' p0, of _ _ 1 "pair_item (data_item 42) (data_item 7)"] ne wr mw
  have ab: "fst (?body ?t) = Inl Abort"
    by blast
  show ?thesis
    using pre p1 w1 mq ma r b2 mp pre' wr mr ab by simp
qed

subsection \<open>The attacker\<close>

lemma attacker_key_run:
  assumes "choices s (chosen s) = 0"
      and "principal s me = Some keyCount"
  shows "attacker_body me s =
     (if world s (key_item me keyCount) then
        (Inr (),
         s\<lparr>chosen := Suc (chosen s),
           principal := (principal s)(me \<mapsto> keyCount + 1),
           heap := heap s @ [None],
           sent := sent s @ [key_item me keyCount]\<rparr>)
      else
        (Inl NotPublic,
         s\<lparr>chosen := Suc (chosen s),
           principal := (principal s)(me \<mapsto> keyCount + 1),
           heap := heap s @ [Some (key_item me keyCount)]\<rparr>))"
  using assms
  by (simp add: attacker_body_def choose'_def create_key_def prog_defs cell_append)

lemma attacker_body_inv:
  assumes "principal s me = Some keyCount"
      and "attacker_body me s = (Inr u, s')"
  shows "world s' = world s \<and> (\<exists>k. principal s' me = Some k)"
  using assms
  by (auto simp add: attacker_body_def choose'_def create_key_def prog_defs cell_append
      cell_update Let_def split: if_splits item.splits simp del: append_assoc)

lemma attacker_inv_passes:
  "attacker_inv E me s \<Longrightarrow> passes (attacker_body me) n s = (Inr u, s')
     \<Longrightarrow> attacker_inv E me s'"
proof (induction n arbitrary: s' u)
  case 0
  then show ?case by (simp add: ret_def)
next
  case (Suc n)
  from Suc.prems(2) obtain s1
    where p: "passes (attacker_body me) n s = (Inr (), s1)"
      and b: "attacker_body me s1 = (Inr u, s')"
    by (auto simp: bnd_def split: prod.splits sum.splits)
  from Suc.IH [OF Suc.prems(1) p] obtain k
    where "world s1 = mypub E" and "principal s1 me = Some k"
    by (auto simp: attacker_inv_def)
  with attacker_body_inv [OF _ b, of k] show ?case
    by (auto simp: attacker_inv_def)
qed

lemma attacker_unroll:
  "attacker_loop me s =
     (case passes (attacker_body me) n s of
        (Inl e, s') \<Rightarrow> Some (e, s')
      | (Inr _, s') \<Rightarrow> attacker_loop me s')"
proof (induction n)
  case 0
  show ?case by (simp add: ret_def)
next
  case (Suc n)
  show ?case
  proof (cases "passes (attacker_body me) n s")
    case (Pair res s1)
    then show ?thesis
      using Suc
      by (cases res) (simp_all add: bnd_def attacker_loop.simps [of me s1])
  qed
qed

text \<open>
  Claim C8. The key leak of the attacker is guarded by badness. Let the attacker run in the
  world \<open>mypub\<close>, as its contract requires, and let a pass of its inner loop choose action
  0. The principal \<open>me\<close> creates the key \<open>key_item me keyCount\<close> and passes it to
  \<open>net_send\<close>, whose gate lets this key through exactly when \<open>me\<close> or the principal the key
  is shared with is bad (the fact that the ghost \<^verbatim>\<open>assume\<close> of line 372 states). If one of
  the two is bad, the pass completes and the key is the one item sent; if neither is bad,
  the send is refused (\<open>NotPublic\<close>) and nothing is sent.
\<close>

theorem attacker_key_leak:
  assumes "world s0 = mypub E"
      and "principal s0 me = Some keyCount0"
      and "passes (attacker_body me) n s0 = (Inr (), s)"
      and "choices s (chosen s) = 0"
  shows "\<exists>keyCount. principal s me = Some keyCount
           \<and> (world s (key_item me keyCount) \<longleftrightarrow>
                bad E me \<or> bad E (shared_with E me keyCount))
           \<and> (bad E me \<or> bad E (shared_with E me keyCount) \<longrightarrow>
                fst (attacker_body me s) = Inr ()
              \<and> sent (snd (attacker_body me s)) = sent s @ [key_item me keyCount])
           \<and> (\<not> bad E me \<and> \<not> bad E (shared_with E me keyCount) \<longrightarrow>
                fst (attacker_body me s) = Inl NotPublic
              \<and> sent (snd (attacker_body me s)) = sent s)"
proof -
  from assms(1,2) have "attacker_inv E me s0"
    by (simp add: attacker_inv_def)
  from attacker_inv_passes [OF this assms(3)] obtain keyCount
    where w: "world s = mypub E" and p: "principal s me = Some keyCount"
    by (auto simp: attacker_inv_def)
  from attacker_key_run [OF assms(4) p] w p show ?thesis
    by auto
qed

theorem attacker_key_leak_witness:
  "world idle_state = mypub scenario_env
   \<and> principal idle_state 3 = Some 0
   \<and> fst (passes (attacker_body 3) 1 idle_state) = Inr ()
   \<and> choices (snd (passes (attacker_body 3) 1 idle_state))
        (chosen (snd (passes (attacker_body 3) 1 idle_state))) = 0
   \<and> principal (snd (passes (attacker_body 3) 1 idle_state)) 3 = Some 1
   \<and> bad scenario_env 3
   \<and> fst (attacker_body 3 (snd (passes (attacker_body 3) 1 idle_state))) = Inr ()
   \<and> sent (snd (attacker_body 3 (snd (passes (attacker_body 3) 1 idle_state))))
       = [key_item 3 0, key_item 3 1]
   \<and> principal idle_state 4 = Some 2
   \<and> choices idle_state (chosen idle_state) = 0
   \<and> \<not> bad scenario_env 4
   \<and> \<not> bad scenario_env (shared_with scenario_env 4 2)
   \<and> fst (attacker_body 4 idle_state) = Inl NotPublic
   \<and> sent (snd (attacker_body 4 idle_state)) = []"
proof -
  let ?s1 = "idle_state\<lparr>chosen := 1, principal := (principal idle_state)(3 \<mapsto> 1),
                heap := heap idle_state @ [None], sent := [key_item 3 0]\<rparr>"
  have w: "world idle_state = mypub scenario_env"
    and p3: "principal idle_state 3 = Some 0"
    and p4: "principal idle_state 4 = Some 2"
    and c0: "choices idle_state (chosen idle_state) = 0"
    and sn: "sent idle_state = []"
    and ch: "chosen idle_state = 0"
    by (simp_all add: idle_state_def scenario_state_def)
  have bd: "bad scenario_env 3" "\<not> bad scenario_env 4"
    "\<not> bad scenario_env (shared_with scenario_env 4 2)"
    by (simp_all add: scenario_env_def)
  have pub: "mypub scenario_env (key_item 3 0)"
    by (simp add: scenario_env_def)
  have p1: "passes (attacker_body 3) 1 idle_state = (Inr (), ?s1)"
    using attacker_key_run [OF c0 p3] w pub sn ch
    by (simp add: bnd_def ret_def)
  have c1: "choices ?s1 (chosen ?s1) = 0" and q1: "principal ?s1 3 = Some 1"
    by (simp_all add: idle_state_def scenario_state_def)
  from attacker_key_leak [OF w p3 p1 c1] q1 bd(1)
  have r3: "fst (attacker_body 3 ?s1) = Inr ()"
    "sent (snd (attacker_body 3 ?s1)) = [key_item 3 0, key_item 3 1]"
    by auto
  have p0: "passes (attacker_body 4) 0 idle_state = (Inr (), idle_state)"
    by (simp add: ret_def)
  from attacker_key_leak [OF w p4 p0 c0] p4 bd(2,3) sn
  have r4: "fst (attacker_body 4 idle_state) = Inl NotPublic"
    "sent (snd (attacker_body 4 idle_state)) = []"
    by auto
  show ?thesis
    using w p3 p4 c0 bd p1 c1 q1 r3 r4 by simp
qed

subsection \<open>The principal registry\<close>

lemma create_key_run:
  "create_key p s =
     (case principal s p of
        None \<Rightarrow> (Inl Violated, s)
      | Some keyCount \<Rightarrow>
          (Inr (length (heap s)),
           s\<lparr>principal := (principal s)(p \<mapsto> keyCount + 1),
             heap := heap s @ [Some (key_item p keyCount)]\<rparr>))"
  by (simp add: create_key_def new_item_def split: option.splits)

lemma new_key_run:
  "new_key p s =
     (case principal s p of
        None \<Rightarrow> (Inl Violated, s)
      | Some keyCount \<Rightarrow>
          (Inr (key_item p keyCount),
           s\<lparr>principal := (principal s)(p \<mapsto> keyCount + 1),
             heap := heap s @ [Some (key_item p keyCount)]\<rparr>))"
  by (simp add: new_key_def create_key_run bnd_def get_item_def item_at_def cell_append
      split: option.splits)

lemma run_all_Cons_Inr:
  assumes "run_all (m # ms) s = (Inr xs, s')"
  obtains a s1 as where "m s = (Inr a, s1)" and "run_all ms s1 = (Inr as, s')"
    and "xs = a # as"
  using assms by (auto simp: bnd_def ret_def split: prod.splits sum.splits)

lemma new_key_Inr:
  assumes "new_key p s = (Inr k, s1)"
  obtains c where "principal s p = Some c" and "k = key_item p c"
    and "s1 = s\<lparr>principal := (principal s)(p \<mapsto> c + 1),
                  heap := heap s @ [Some (key_item p c)]\<rparr>"
  using assms by (auto simp: new_key_run split: option.splits)

lemma new_keys_above:
  "run_all (map new_key ps) s = (Inr ks, s') \<Longrightarrow> k \<in> set ks
     \<Longrightarrow> \<exists>p n c. k = key_item p n \<and> principal s p = Some c \<and> c \<le> n"
proof (induction ps arbitrary: s ks)
  case Nil
  then show ?case by (simp add: ret_def)
next
  case (Cons p ps)
  from Cons.prems(1) have "run_all (new_key p # map new_key ps) s = (Inr ks, s')"
    by simp
  then obtain k0 s1 ks1
    where first: "new_key p s = (Inr k0, s1)"
      and rest: "run_all (map new_key ps) s1 = (Inr ks1, s')"
      and ks0: "ks = k0 # ks1"
    by (rule run_all_Cons_Inr)
  from first obtain c
    where c: "principal s p = Some c"
      and k0: "k0 = key_item p c"
      and s1: "s1 = s\<lparr>principal := (principal s)(p \<mapsto> c + 1),
                      heap := heap s @ [Some (key_item p c)]\<rparr>"
    by (rule new_key_Inr)
  from ks0 k0 have ks: "ks = key_item p c # ks1"
    by simp
  show ?case
  proof (cases "k = key_item p c")
    case True
    with c show ?thesis by auto
  next
    case False
    with Cons.prems(2) ks have "k \<in> set ks1" by simp
    from Cons.IH [OF rest this] obtain q n c1
      where "k = key_item q n" and "principal s1 q = Some c1" and "c1 \<le> n"
      by blast
    with c s1 show ?thesis
      by (cases "q = p") auto
  qed
qed

lemma new_keys_distinct:
  "run_all (map new_key ps) s = (Inr ks, s') \<Longrightarrow> distinct ks"
proof (induction ps arbitrary: s ks)
  case Nil
  then show ?case by (simp add: ret_def)
next
  case (Cons p ps)
  from Cons.prems have "run_all (new_key p # map new_key ps) s = (Inr ks, s')"
    by simp
  then obtain k0 s1 ks1
    where first: "new_key p s = (Inr k0, s1)"
      and rest: "run_all (map new_key ps) s1 = (Inr ks1, s')"
      and ks0: "ks = k0 # ks1"
    by (rule run_all_Cons_Inr)
  from first obtain c
    where c: "principal s p = Some c"
      and k0: "k0 = key_item p c"
      and s1: "s1 = s\<lparr>principal := (principal s)(p \<mapsto> c + 1),
                      heap := heap s @ [Some (key_item p c)]\<rparr>"
    by (rule new_key_Inr)
  from ks0 k0 have ks: "ks = key_item p c # ks1"
    by simp
  have "key_item p c \<notin> set ks1"
  proof
    assume "key_item p c \<in> set ks1"
    from new_keys_above [OF rest this] s1 show False by auto
  qed
  with Cons.IH [OF rest] ks show ?case by simp
qed

lemma new_principals_above:
  "run_all (replicate n create_principal) s = (Inr ids, s')
     \<Longrightarrow> distinct ids \<and> (\<forall>i \<in> set ids. principals s \<le> i)"
proof (induction n arbitrary: s ids)
  case 0
  then show ?case by (simp add: ret_def)
next
  case (Suc n)
  from Suc.prems
  have "run_all (create_principal # replicate n create_principal) s = (Inr ids, s')"
    by simp
  then obtain i0 s1 ids1
    where first: "create_principal s = (Inr i0, s1)"
      and rest: "run_all (replicate n create_principal) s1 = (Inr ids1, s')"
      and ids0: "ids = i0 # ids1"
    by (rule run_all_Cons_Inr)
  from first have s1: "principals s1 = principals s + 1" and "i0 = principals s"
    by (auto simp: create_principal_def)
  with ids0 have ids: "ids = principals s # ids1"
    by simp
  from Suc.IH [OF rest] s1 ids show ?case
    by auto
qed

text \<open>
  Claim C7. Unique identities and sequence numbers: \<open>create_key\<close> in the state
  \<^verbatim>\<open>principal(p, keyCount)\<close> returns the key \<open>key_item p keyCount\<close> and leaves
  \<^verbatim>\<open>principal(p, keyCount + 1)\<close>, so the keys returned by any sequence of calls of
  \<open>create_key\<close>, for any principals, are pairwise different; \<open>create_principal\<close> in the
  state \<^verbatim>\<open>principals(count)\<close> issues \<open>count\<close> with the chunk \<^verbatim>\<open>principal(count, 0)\<close> and
  leaves \<^verbatim>\<open>principals(count + 1)\<close>, so the identifiers issued by any sequence of calls are
  pairwise different.
\<close>

theorem unique_identities:
  "(principal s p = Some keyCount \<longrightarrow>
      (\<exists>r s1. create_key p s = (Inr r, s1) \<and> key_chunk s1 r p keyCount
          \<and> principal s1 p = Some (keyCount + 1)))
   \<and> (run_all (map new_key ps) s = (Inr ks, s') \<longrightarrow> distinct ks)
   \<and> (\<exists>s1. create_principal s = (Inr (principals s), s1)
          \<and> principals s1 = principals s + 1 \<and> principal s1 (principals s) = Some 0)
   \<and> (run_all (replicate n create_principal) s = (Inr ids, s'') \<longrightarrow> distinct ids)"
  using new_keys_distinct [of ps s ks s'] new_principals_above [of n s ids s'']
  by (auto simp: create_key_run create_principal_def chunk_defs cell_append)

theorem unique_identities_witness:
  "principal idle_state 4 = Some 2
   \<and> fst (create_key 4 idle_state) = Inr 2
   \<and> key_chunk (snd (create_key 4 idle_state)) 2 4 2
   \<and> principal (snd (create_key 4 idle_state)) 4 = Some 3
   \<and> fst (run_all (map new_key [4, 3, 4]) idle_state)
       = Inr [key_item 4 2, key_item 3 0, key_item 4 3]
   \<and> distinct [key_item 4 2, key_item 3 0, key_item 4 3]
   \<and> fst (create_principal idle_state) = Inr 5
   \<and> principals (snd (create_principal idle_state)) = 6
   \<and> fst (run_all (replicate 3 create_principal) idle_state) = Inr [5, 6, 7]
   \<and> distinct [5, 6, 7 :: int]"
proof -
  have a: "principal idle_state 4 = Some 2"
    by (simp add: idle_state_def scenario_state_def)
  have b: "fst (run_all (map new_key [4, 3, 4]) idle_state)
       = Inr [key_item 4 2, key_item 3 0, key_item 4 3]"
    by (simp add: idle_state_def scenario_state_def bnd_def ret_def new_key_run)
  have c: "fst (run_all (replicate 3 create_principal) idle_state) = Inr [5, 6, 7]"
    by (simp add: idle_state_def scenario_state_def bnd_def ret_def create_principal_def
        numeral_3_eq_3)
  have d: "fst (create_key 4 idle_state) = Inr 2"
    "key_chunk (snd (create_key 4 idle_state)) 2 4 2"
    "principal (snd (create_key 4 idle_state)) 4 = Some 3"
    "fst (create_principal idle_state) = Inr 5"
    "principals (snd (create_principal idle_state)) = 6"
    by (simp_all add: idle_state_def scenario_state_def create_key_run create_principal_def
        chunk_defs cell_Cons cell_append)
  from b have b': "run_all (map new_key [4, 3, 4]) idle_state
       = (Inr [key_item 4 2, key_item 3 0, key_item 4 3],
          snd (run_all (map new_key [4, 3, 4]) idle_state))"
    by (metis prod.collapse)
  from c have c': "run_all (replicate 3 create_principal) idle_state
       = (Inr [5, 6, 7], snd (run_all (replicate 3 create_principal) idle_state))"
    by (metis prod.collapse)
  from unique_identities [of idle_state 4 2 "[4, 3, 4]"
      "[key_item 4 2, key_item 3 0, key_item 4 3]"
      "snd (run_all (map new_key [4, 3, 4]) idle_state)" 3 "[5, 6, 7]"
      "snd (run_all (replicate 3 create_principal) idle_state)"] a b' c'
  have "distinct [key_item 4 2, key_item 3 0, key_item 4 3]" and "distinct [5, 6, 7 :: int]"
    by blast+
  with a b c d show ?thesis
    by blast
qed


end
